theory Spec2Isabelle
  imports Main "HOL-Library.Multiset" "HOL-Library.Char_ord" "HOL-Library.List_Lexorder"
begin

section \<open>The inventory data layer of WarehouseManager\<close>

text \<open>
  The class \<open>DatabaseService\<close> (the second document of
  \<^verbatim>\<open>src/navigation/AppNavigator.tsx\<close>, imported elsewhere as
  \<^verbatim>\<open>services/database\<close>) is embedded here. Quantities and row ids are
  JavaScript numbers holding integers and are modelled by \<open>int\<close>: a value of the model
  stands for the double of that value, and the arithmetic of the code is that of
  doubles, rounding where the exact result is not a double (see \<open>to_number\<close>). Text
  columns are \<open>string\<close>, compared bytewise as SQLite's default collation does.
\<close>

subsection \<open>Data\<close>

text \<open>The union type \<^verbatim>\<open>'in' | 'out'\<close> of a movement.\<close>

datatype movement = In | Out

text \<open>
  \<^verbatim>\<open>interface Item\<close> and \<^verbatim>\<open>interface StockLog\<close>. The fields carry the
  interface's name as a prefix because both interfaces have an \<open>id\<close> and a
  \<open>quantity\<close>. An argument of type \<^verbatim>\<open>Omit<Item, 'id'>\<close> is an \<open>Item\<close> whose
  \<open>item_id\<close> is never read; likewise for \<^verbatim>\<open>Omit<StockLog, 'id'>\<close>. The optional
  \<open>item_name\<close> is present only in rows of the joined query.
\<close>

record Item =
  item_id :: int
  item_name :: string
  item_sku :: string
  item_quantity :: int
  item_location :: string
  item_description :: string
  item_created_at :: string

record StockLog =
  log_id :: int
  log_item_id :: int
  log_type :: movement
  log_quantity :: int
  log_note :: string
  log_timestamp :: string
  log_item_name :: "string option"

record DashboardStats =
  totalItems :: int
  totalQuantity :: int
  recentLogs :: "StockLog list"

text \<open>
  The content of the file \<^verbatim>\<open>warehouse.db\<close>. A table that has not been created is
  \<open>None\<close>. Both tables declare \<^verbatim>\<open>INTEGER PRIMARY KEY AUTOINCREMENT\<close>; the code
  never supplies an id of its own, so the next id is one more than the largest id
  handed out so far, which SQLite keeps per table and which is held in
  \<open>items_seq\<close> and \<open>stock_logs_seq\<close>. Rows are kept in insertion order.
\<close>

record database =
  items :: "Item list option"
  stock_logs :: "StockLog list option"
  items_seq :: int
  stock_logs_seq :: int

text \<open>The handle returned by \<^verbatim>\<open>SQLite.openDatabaseAsync\<close>, tagged with the file name.\<close>

datatype SQLiteDatabase = SQLiteDatabase string

text \<open>
  The errors the service throws: the rejection of \<^verbatim>\<open>openDatabaseAsync\<close> (or
  \<^verbatim>\<open>Error('Failed to open database')\<close> on a null handle, which \<open>init\<close> treats alike),
  \<^verbatim>\<open>Error('Database not initialized')\<close>, \<^verbatim>\<open>Error('Item not found')\<close>, and the
  failures of a statement: on a table that does not exist, and SQLite's
  \<^verbatim>\<open>integer overflow\<close> of \<^verbatim>\<open>SUM\<close>. The first two are the specification's
  StorageUnavailable, the third its NotFound.
\<close>

datatype error =
  FailedToOpen | DatabaseNotInitialized | ItemNotFound | NoSuchTable | IntegerOverflow

text \<open>
  The state: the two private fields of the class, and the environment they act on,
  which is the content of the database file and whether the platform lets the
  file be opened.
\<close>

record service =
  db :: "SQLiteDatabase option"
  isInitialized :: bool
  store :: database
  can_open :: bool

subsection \<open>JavaScript and SQL primitives\<close>

text \<open>The operator \<^verbatim>\<open>a || b\<close> on numbers and on strings: \<open>0\<close> and \<open>''\<close> are falsy.\<close>

definition or_number :: "int \<Rightarrow> int \<Rightarrow> int" where
  "or_number a b = (if a = 0 then b else a)"

definition or_string :: "string \<Rightarrow> string \<Rightarrow> string" where
  "or_string a b = (if a = [] then b else a)"

text \<open>
  \<^verbatim>\<open>Number.isSafeInteger\<close>: the integers of magnitude at most \<open>2^53 - 1\<close>, on which
  the arithmetic of doubles is exact.
\<close>

definition safe_integer :: "int \<Rightarrow> bool" where
  "safe_integer n = (- 9007199254740991 \<le> n \<and> n \<le> 9007199254740991)"

text \<open>
  The double nearest to an integer. A double has 53 significant bits: below \<open>2^53\<close>
  (which is 9007199254740992) every integer is a double, and from there on the doubles
  are the multiples of \<open>ulp\<close>, the power of two that leaves 53 bits. An integer between
  two doubles goes to the nearer, and one half way between them to the one with the
  even significand (IEEE 754 round to nearest, ties to even). The doubles end below
  \<open>2^1024\<close>, far beyond any quantity considered below.
\<close>

function ulp :: "nat \<Rightarrow> nat" where
  "ulp a = (if a < 9007199254740992 then 1 else 2 * ulp (a div 2))"
  by pat_completeness auto
termination
  by (relation "measure id") auto

definition to_number :: "int \<Rightarrow> int" where
  "to_number n =
     (let a = nat \<bar>n\<bar>; u = ulp a; m = a div u; r = a mod u;
          m' = (if u < 2 * r \<or> (2 * r = u \<and> odd m) then m + 1 else m)
      in sgn n * int (m' * u))"

text \<open>The operators \<^verbatim>\<open>a + b\<close> and \<^verbatim>\<open>a - b\<close> on numbers: the exact result, rounded.\<close>

definition add_number :: "int \<Rightarrow> int \<Rightarrow> int" where
  "add_number a b = to_number (a + b)"

definition sub_number :: "int \<Rightarrow> int \<Rightarrow> int" where
  "sub_number a b = to_number (a - b)"

text \<open>
  \<^verbatim>\<open>SUM\<close> over an \<^verbatim>\<open>INTEGER\<close> column: SQLite adds the values in 64-bit integers in
  the order of the scan and fails with \<^verbatim>\<open>integer overflow\<close> when a running total
  leaves the 64 bits. (A value that itself does not fit 64 bits is kept by SQLite as a
  floating-point value and summed as such; the model has no separate representation
  for it, and every property below that depends on a sum bounds the quantities by
  \<open>2^53 - 1\<close>.)
\<close>

definition int64 :: "int \<Rightarrow> bool" where
  "int64 n = (- 9223372036854775808 \<le> n \<and> n \<le> 9223372036854775807)"

fun sum_int64 :: "int \<Rightarrow> int list \<Rightarrow> int option" where
  "sum_int64 acc [] = Some acc"
| "sum_int64 acc (v # vs) = (if int64 (acc + v) then sum_int64 (acc + v) vs else None)"

text \<open>
  \<^verbatim>\<open>ORDER BY key DESC\<close>. SQL leaves the order of rows with equal keys open; here they
  stay in the order of the scan.
\<close>

fun insert_desc :: "('a \<Rightarrow> string) \<Rightarrow> 'a \<Rightarrow> 'a list \<Rightarrow> 'a list" where
  "insert_desc k x [] = [x]"
| "insert_desc k x (y # ys) = (if k y \<le> k x then x # y # ys else y # insert_desc k x ys)"

definition order_by_desc :: "('a \<Rightarrow> string) \<Rightarrow> 'a list \<Rightarrow> 'a list" where
  "order_by_desc k xs = foldr (insert_desc k) xs []"

text \<open>\<^verbatim>\<open>LIMIT n\<close>: a negative limit means no limit in SQLite.\<close>

definition limit :: "int \<Rightarrow> 'a list \<Rightarrow> 'a list" where
  "limit n xs = (if n < 0 then xs else take (nat n) xs)"

text \<open>
  \<^verbatim>\<open>stock_logs sl JOIN items i ON sl.item_id = i.id\<close>, selecting
  \<^verbatim>\<open>sl.*, i.name as item_name\<close>: an inner join, one result row for each pair of a
  ledger row and an item row with that id.
\<close>

definition join_items :: "StockLog list \<Rightarrow> Item list \<Rightarrow> StockLog list" where
  "join_items logs rows =
     concat (map (\<lambda>sl. map (\<lambda>i. sl\<lparr>log_item_name := Some (item_name i)\<rparr>)
                              (filter (\<lambda>i. log_item_id sl = item_id i) rows)) logs)"

text \<open>\<^verbatim>\<open>CREATE TABLE IF NOT EXISTS\<close> for \<open>items\<close> and for \<open>stock_logs\<close>.\<close>

definition create_items :: "database \<Rightarrow> database" where
  "create_items d = (case items d of None \<Rightarrow> d\<lparr>items := Some []\<rparr> | Some _ \<Rightarrow> d)"

definition create_stock_logs :: "database \<Rightarrow> database" where
  "create_stock_logs d =
     (case stock_logs d of None \<Rightarrow> d\<lparr>stock_logs := Some []\<rparr> | Some _ \<Rightarrow> d)"

text \<open>
  The statements of the service, each on the content of the file. The foreign key of
  \<open>stock_logs.item_id\<close> is declared but the code never switches SQLite's foreign-key
  enforcement on, so no statement checks it. The \<^verbatim>\<open>CHECK(type IN ('in', 'out'))\<close>
  holds for every value of \<open>movement\<close>.
\<close>

definition insert_item :: "Item \<Rightarrow> database \<Rightarrow> error + int \<times> database" where
  "insert_item r d =
     (case items d of
        None \<Rightarrow> Inl NoSuchTable
      | Some rows \<Rightarrow>
          let rid = items_seq d + 1
          in Inr (rid, d\<lparr>items := Some (rows @ [r\<lparr>item_id := rid\<rparr>]), items_seq := rid\<rparr>))"

definition select_items :: "database \<Rightarrow> error + Item list" where
  "select_items d =
     (case items d of
        None \<Rightarrow> Inl NoSuchTable
      | Some rows \<Rightarrow> Inr (order_by_desc item_created_at rows))"

definition select_item :: "int \<Rightarrow> database \<Rightarrow> error + Item option" where
  "select_item i d =
     (case items d of
        None \<Rightarrow> Inl NoSuchTable
      | Some rows \<Rightarrow> Inr (find (\<lambda>r. item_id r = i) rows))"

definition update_quantity :: "int \<Rightarrow> int \<Rightarrow> database \<Rightarrow> error + database" where
  "update_quantity newQuantity i d =
     (case items d of
        None \<Rightarrow> Inl NoSuchTable
      | Some rows \<Rightarrow>
          Inr (d\<lparr>items :=
                 Some (map (\<lambda>r. if item_id r = i then r\<lparr>item_quantity := newQuantity\<rparr> else r)
                           rows)\<rparr>))"

definition delete_item :: "int \<Rightarrow> database \<Rightarrow> error + database" where
  "delete_item i d =
     (case items d of
        None \<Rightarrow> Inl NoSuchTable
      | Some rows \<Rightarrow> Inr (d\<lparr>items := Some (filter (\<lambda>r. item_id r \<noteq> i) rows)\<rparr>))"

definition insert_stock_log :: "StockLog \<Rightarrow> database \<Rightarrow> error + int \<times> database" where
  "insert_stock_log l d =
     (case stock_logs d of
        None \<Rightarrow> Inl NoSuchTable
      | Some logs \<Rightarrow>
          let rid = stock_logs_seq d + 1
          in Inr (rid, d\<lparr>stock_logs := Some (logs @ [l\<lparr>log_id := rid, log_item_name := None\<rparr>]),
                          stock_logs_seq := rid\<rparr>))"

definition select_stock_logs :: "int \<Rightarrow> database \<Rightarrow> error + StockLog list" where
  "select_stock_logs itemId d =
     (case stock_logs d of
        None \<Rightarrow> Inl NoSuchTable
      | Some logs \<Rightarrow> Inr (order_by_desc log_timestamp (filter (\<lambda>l. log_item_id l = itemId) logs)))"

definition select_recent :: "int \<Rightarrow> database \<Rightarrow> error + StockLog list" where
  "select_recent n d =
     (case stock_logs d of
        None \<Rightarrow> Inl NoSuchTable
      | Some logs \<Rightarrow>
          (case items d of
             None \<Rightarrow> Inl NoSuchTable
           | Some rows \<Rightarrow> Inr (limit n (order_by_desc log_timestamp (join_items logs rows)))))"

definition count_items :: "database \<Rightarrow> error + int" where
  "count_items d =
     (case items d of None \<Rightarrow> Inl NoSuchTable | Some rows \<Rightarrow> Inr (int (length rows)))"

text \<open>
  \<^verbatim>\<open>SELECT COALESCE(SUM(quantity), 0) as total FROM items\<close>: the 64-bit total, read
  by the caller as a number.
\<close>

definition sum_quantity :: "database \<Rightarrow> error + int" where
  "sum_quantity d =
     (case items d of
        None \<Rightarrow> Inl NoSuchTable
      | Some rows \<Rightarrow>
          (case sum_int64 0 (map item_quantity rows) of
             None \<Rightarrow> Inl IntegerOverflow
           | Some tot \<Rightarrow> Inr (to_number tot)))"

subsection \<open>Initialization\<close>

definition openDatabaseAsync :: "string \<Rightarrow> service \<Rightarrow> error + SQLiteDatabase" where
  "openDatabaseAsync fname s = (if can_open s then Inr (SQLiteDatabase fname) else Inl FailedToOpen)"

definition createTables :: "service \<Rightarrow> (error + unit) \<times> service" where
  "createTables s =
     (case db s of
        None \<Rightarrow> (Inl DatabaseNotInitialized, s)
      | Some _ \<Rightarrow> (Inr (), s\<lparr>store := create_stock_logs (create_items (store s))\<rparr>))"

text \<open>The \<^verbatim>\<open>catch\<close> of \<open>init\<close> clears both fields before it rethrows.\<close>

definition init :: "service \<Rightarrow> (error + unit) \<times> service" where
  "init s =
     (if isInitialized s \<and> db s \<noteq> None then (Inr (), s)
      else
        (case openDatabaseAsync ''warehouse.db'' s of
           Inl e \<Rightarrow> (Inl e, s\<lparr>db := None, isInitialized := False\<rparr>)
         | Inr h \<Rightarrow>
             (case createTables (s\<lparr>db := Some h\<rparr>) of
                (Inl e, s1) \<Rightarrow> (Inl e, s1\<lparr>db := None, isInitialized := False\<rparr>)
              | (Inr _, s1) \<Rightarrow> (Inr (), s1\<lparr>isInitialized := True\<rparr>))))"

definition ensureInitialized :: "service \<Rightarrow> (error + unit) \<times> service" where
  "ensureInitialized s = (if \<not> isInitialized s \<or> db s = None then init s else (Inr (), s))"

definition isReady :: "service \<Rightarrow> bool" where
  "isReady s = (isInitialized s \<and> db s \<noteq> None)"

subsection \<open>Operations\<close>

text \<open>
  Every operation returns its result or the error it throws, and the state it
  leaves. A \<^verbatim>\<open>catch\<close> that logs and rethrows is the error passed on.
\<close>

definition addItem :: "Item \<Rightarrow> service \<Rightarrow> (error + int) \<times> service" where
  "addItem item s =
     (case ensureInitialized s of
        (Inl e, s1) \<Rightarrow> (Inl e, s1)
      | (Inr _, s1) \<Rightarrow>
          (case db s1 of
             None \<Rightarrow> (Inl DatabaseNotInitialized, s1)
           | Some _ \<Rightarrow>
               (case insert_item
                       \<lparr>item_id = item_id item,
                        item_name = item_name item,
                        item_sku = or_string (item_sku item) [],
                        item_quantity = or_number (item_quantity item) 0,
                        item_location = or_string (item_location item) [],
                        item_description = or_string (item_description item) [],
                        item_created_at = item_created_at item\<rparr> (store s1) of
                  Inl e \<Rightarrow> (Inl e, s1)
                | Inr (lastInsertRowId, d) \<Rightarrow> (Inr lastInsertRowId, s1\<lparr>store := d\<rparr>))))"

definition getAllItems :: "service \<Rightarrow> (error + Item list) \<times> service" where
  "getAllItems s =
     (case ensureInitialized s of
        (Inl e, s1) \<Rightarrow> (Inl e, s1)
      | (Inr _, s1) \<Rightarrow>
          (case db s1 of
             None \<Rightarrow> (Inl DatabaseNotInitialized, s1)
           | Some _ \<Rightarrow>
               (case select_items (store s1) of
                  Inl e \<Rightarrow> (Inl e, s1)
                | Inr result \<Rightarrow> (Inr result, s1))))"

definition getItemById :: "int \<Rightarrow> service \<Rightarrow> (error + Item option) \<times> service" where
  "getItemById i s =
     (case ensureInitialized s of
        (Inl e, s1) \<Rightarrow> (Inl e, s1)
      | (Inr _, s1) \<Rightarrow>
          (case db s1 of
             None \<Rightarrow> (Inl DatabaseNotInitialized, s1)
           | Some _ \<Rightarrow>
               (case select_item i (store s1) of
                  Inl e \<Rightarrow> (Inl e, s1)
                | Inr result \<Rightarrow> (Inr result, s1))))"

definition updateItemQuantity :: "int \<Rightarrow> int \<Rightarrow> service \<Rightarrow> (error + unit) \<times> service" where
  "updateItemQuantity i newQuantity s =
     (case ensureInitialized s of
        (Inl e, s1) \<Rightarrow> (Inl e, s1)
      | (Inr _, s1) \<Rightarrow>
          (case db s1 of
             None \<Rightarrow> (Inl DatabaseNotInitialized, s1)
           | Some _ \<Rightarrow>
               (case update_quantity newQuantity i (store s1) of
                  Inl e \<Rightarrow> (Inl e, s1)
                | Inr d \<Rightarrow> (Inr (), s1\<lparr>store := d\<rparr>))))"

definition deleteItem :: "int \<Rightarrow> service \<Rightarrow> (error + unit) \<times> service" where
  "deleteItem i s =
     (case ensureInitialized s of
        (Inl e, s1) \<Rightarrow> (Inl e, s1)
      | (Inr _, s1) \<Rightarrow>
          (case db s1 of
             None \<Rightarrow> (Inl DatabaseNotInitialized, s1)
           | Some _ \<Rightarrow>
               (case delete_item i (store s1) of
                  Inl e \<Rightarrow> (Inl e, s1)
                | Inr d \<Rightarrow> (Inr (), s1\<lparr>store := d\<rparr>))))"

definition addStockLog :: "StockLog \<Rightarrow> service \<Rightarrow> (error + int) \<times> service" where
  "addStockLog log s =
     (case ensureInitialized s of
        (Inl e, s1) \<Rightarrow> (Inl e, s1)
      | (Inr _, s1) \<Rightarrow>
          (case db s1 of
             None \<Rightarrow> (Inl DatabaseNotInitialized, s1)
           | Some _ \<Rightarrow>
               (case insert_stock_log
                       \<lparr>log_id = log_id log,
                        log_item_id = log_item_id log,
                        log_type = log_type log,
                        log_quantity = or_number (log_quantity log) 0,
                        log_note = or_string (log_note log) [],
                        log_timestamp = log_timestamp log,
                        log_item_name = None\<rparr> (store s1) of
                  Inl e \<Rightarrow> (Inl e, s1)
                | Inr (lastInsertRowId, d) \<Rightarrow> (Inr lastInsertRowId, s1\<lparr>store := d\<rparr>))))"

text \<open>The two readers of the ledger check the handle and do not initialize.\<close>

definition getStockLogsByItemId :: "int \<Rightarrow> service \<Rightarrow> (error + StockLog list) \<times> service" where
  "getStockLogsByItemId itemId s =
     (case db s of
        None \<Rightarrow> (Inl DatabaseNotInitialized, s)
      | Some _ \<Rightarrow>
          (case select_stock_logs itemId (store s) of
             Inl e \<Rightarrow> (Inl e, s)
           | Inr result \<Rightarrow> (Inr result, s)))"

definition getRecentStockLogs :: "int \<Rightarrow> service \<Rightarrow> (error + StockLog list) \<times> service" where
  "getRecentStockLogs n s =
     (case db s of
        None \<Rightarrow> (Inl DatabaseNotInitialized, s)
      | Some _ \<Rightarrow>
          (case select_recent n (store s) of
             Inl e \<Rightarrow> (Inl e, s)
           | Inr result \<Rightarrow> (Inr result, s)))"

definition getDashboardStats :: "service \<Rightarrow> (error + DashboardStats) \<times> service" where
  "getDashboardStats s =
     (case ensureInitialized s of
        (Inl e, s1) \<Rightarrow> (Inl e, s1)
      | (Inr _, s1) \<Rightarrow>
          (case db s1 of
             None \<Rightarrow> (Inl DatabaseNotInitialized, s1)
           | Some _ \<Rightarrow>
               (case count_items (store s1) of
                  Inl e \<Rightarrow> (Inl e, s1)
                | Inr cnt \<Rightarrow>
                    (case sum_quantity (store s1) of
                       Inl e \<Rightarrow> (Inl e, s1)
                     | Inr tot \<Rightarrow>
                         (case getRecentStockLogs 5 s1 of
                            (Inl e, s2) \<Rightarrow> (Inl e, s2)
                          | (Inr logs, s2) \<Rightarrow>
                              (Inr \<lparr>totalItems = or_number cnt 0,
                                    totalQuantity = or_number tot 0,
                                    recentLogs = logs\<rparr>, s2))))))"

text \<open>
  The composite operation. The parameter \<open>now\<close> is the value of
  \<^verbatim>\<open>new Date().toISOString()\<close> at the call.
\<close>

definition processStockMovement ::
  "int \<Rightarrow> movement \<Rightarrow> int \<Rightarrow> string \<Rightarrow> string \<Rightarrow> service \<Rightarrow> (error + unit) \<times> service" where
  "processStockMovement itemId type quantity note now s =
     (case db s of
        None \<Rightarrow> (Inl DatabaseNotInitialized, s)
      | Some _ \<Rightarrow>
          (case getItemById itemId s of
             (Inl e, s1) \<Rightarrow> (Inl e, s1)
           | (Inr None, s1) \<Rightarrow> (Inl ItemNotFound, s1)
           | (Inr (Some item), s1) \<Rightarrow>
               (let newQuantity =
                      (if type = In then add_number (item_quantity item) quantity
                       else max 0 (sub_number (item_quantity item) quantity))
                in case updateItemQuantity itemId newQuantity s1 of
                     (Inl e, s2) \<Rightarrow> (Inl e, s2)
                   | (Inr _, s2) \<Rightarrow>
                       (case addStockLog
                               \<lparr>log_id = 0,
                                log_item_id = itemId,
                                log_type = type,
                                log_quantity = quantity,
                                log_note = note,
                                log_timestamp = now,
                                log_item_name = None\<rparr> s2 of
                          (Inl e, s3) \<Rightarrow> (Inl e, s3)
                        | (Inr _, s3) \<Rightarrow> (Inr (), s3)))))"

subsection \<open>Invariants and example states\<close>

text \<open>Every item row has a quantity of at least zero; every ledger row one above zero.\<close>

definition quantities_nonneg :: "service \<Rightarrow> bool" where
  "quantities_nonneg s =
     (case items (store s) of None \<Rightarrow> True | Some rows \<Rightarrow> list_all (\<lambda>r. 0 \<le> item_quantity r) rows)"

definition ledger_positive :: "service \<Rightarrow> bool" where
  "ledger_positive s =
     (case stock_logs (store s) of
        None \<Rightarrow> True
      | Some logs \<Rightarrow> list_all (\<lambda>l. 0 < log_quantity l) logs)"

text \<open>
  A newly installed application: no handle, an empty file that can be opened. The
  item is the third of the sample data, with quantity 8. \<open>shop\<close> is the state after
  adding it, \<open>sold\<close> the state after a stock-out of 20 on it, \<open>restarted\<close> the state
  of a new process on the file that \<open>shop\<close> left, \<open>opened\<close> the new application
  after \<open>init\<close>, and \<open>orphaned\<close> the state after the item of \<open>sold\<close> is deleted.
\<close>

definition fresh :: service where
  "fresh = \<lparr>db = None, isInitialized = False,
            store = \<lparr>items = None, stock_logs = None, items_seq = 0, stock_logs_seq = 0\<rparr>,
            can_open = True\<rparr>"

definition phone_case :: Item where
  "phone_case =
     \<lparr>item_id = 0, item_name = ''Phone Case'', item_sku = ''PC-003'', item_quantity = 8,
      item_location = ''C1-D1'', item_description = ''Protective phone case'',
      item_created_at = ''2024-05-01T10:00:00.000Z''\<rparr>"

definition shop :: service where
  "shop = snd (addItem phone_case fresh)"

definition sold :: service where
  "sold = snd (processStockMovement 1 Out 20 ''Customer order'' ''2024-05-02T09:30:00.000Z'' shop)"

definition restarted :: service where
  "restarted = shop\<lparr>db := None, isInitialized := False\<rparr>"

definition opened :: service where
  "opened = snd (init fresh)"

definition orphaned :: service where
  "orphaned = snd (deleteItem 1 sold)"

text \<open>
  \<open>brimful\<close> is \<open>shop\<close> with the quantity of its item set to the largest safe integer,
  \<open>two_items\<close> is \<open>brimful\<close> with a second item of quantity 2.
\<close>

definition brimful :: service where
  "brimful = snd (updateItemQuantity 1 9007199254740991 shop)"

definition two_items :: service where
  "two_items = snd (addItem (phone_case\<lparr>item_quantity := 2\<rparr>) brimful)"

section \<open>Properties\<close>

subsection \<open>The operations on a ready service\<close>

lemmas sql_defs = insert_item_def select_items_def select_item_def update_quantity_def
  delete_item_def insert_stock_log_def select_stock_logs_def select_recent_def count_items_def
  sum_quantity_def create_items_def create_stock_logs_def

lemmas init_defs = openDatabaseAsync_def createTables_def init_def ensureInitialized_def

declare ulp.simps [simp del]

lemma ulp_small: "a < 9007199254740992 \<Longrightarrow> ulp a = 1"
  by (subst ulp.simps) simp

lemma ulp_large: "\<not> a < 9007199254740992 \<Longrightarrow> ulp a = 2 * ulp (a div 2)"
  by (subst ulp.simps) simp

lemma to_number_safe: "safe_integer n \<Longrightarrow> to_number n = n"
proof -
  assume "safe_integer n"
  then have "nat \<bar>n\<bar> < 9007199254740992" unfolding safe_integer_def by linarith
  then have "ulp (nat \<bar>n\<bar>) = 1" by (rule ulp_small)
  then show ?thesis by (simp add: to_number_def Let_def sgn_if)
qed

lemma to_number_nonneg: "0 \<le> n \<Longrightarrow> 0 \<le> to_number n"
  by (simp add: to_number_def Let_def sgn_if)

lemma sum_int64_small:
  "\<bar>acc\<bar> + sum_list (map abs vs) \<le> 9007199254740991 \<Longrightarrow>
     sum_int64 acc vs = Some (acc + sum_list vs)"
proof (induction vs arbitrary: acc)
  case Nil
  then show ?case by simp
next
  case (Cons v vs)
  have "\<bar>acc + v\<bar> + sum_list (map abs vs) \<le> 9007199254740991" using Cons.prems by simp
  then have ih: "sum_int64 (acc + v) vs = Some (acc + v + sum_list vs)" by (rule Cons.IH)
  have "0 \<le> sum_list (map abs vs)" by (induction vs) auto
  then have "int64 (acc + v)" using Cons.prems unfolding int64_def by simp linarith
  with ih show ?case by (simp add: add.assoc)
qed

lemma to_number_nonpos: "n \<le> 0 \<Longrightarrow> to_number n \<le> 0"
  by (simp add: to_number_def Let_def sgn_if)

lemmas number_defs = add_number_def sub_number_def to_number_def ulp_small ulp_large

lemma exact_new_quantity:
  assumes "type = In \<longrightarrow> safe_integer (Q + q)"
    and "type = Out \<longrightarrow> Q - q \<le> 9007199254740991"
  shows "(if type = In then add_number Q q else max 0 (sub_number Q q))
     = (if type = In then Q + q else max 0 (Q - q))"
proof (cases type)
  case In
  then show ?thesis using assms(1) by (simp add: add_number_def to_number_safe)
next
  case Out
  show ?thesis
  proof (cases "0 \<le> Q - q")
    case True
    then have "safe_integer (Q - q)" using assms(2) Out by (simp add: safe_integer_def)
    then show ?thesis using Out by (simp add: sub_number_def to_number_safe)
  next
    case False
    then have "to_number (Q - q) \<le> 0" by (simp add: to_number_nonpos)
    with False show ?thesis using Out by (simp add: sub_number_def)
  qed
qed

lemma or_number_zero [simp]: "or_number a 0 = a"
  by (simp add: or_number_def)

lemma or_string_empty [simp]: "or_string a [] = a"
  by (simp add: or_string_def)

lemma ensureInitialized_ready: "isReady s \<Longrightarrow> ensureInitialized s = (Inr (), s)"
  by (auto simp: ensureInitialized_def isReady_def)

lemma isReady_db: "isReady s \<Longrightarrow> \<exists>h. db s = Some h"
  by (auto simp: isReady_def)

lemma getItemById_ready:
  assumes "isReady s" and "items (store s) = Some rows"
  shows "getItemById i s = (Inr (find (\<lambda>r. item_id r = i) rows), s)"
  using assms isReady_db [OF assms(1)]
  by (auto simp: getItemById_def ensureInitialized_ready select_item_def)

lemma getAllItems_ready:
  assumes "isReady s" and "items (store s) = Some rows"
  shows "getAllItems s = (Inr (order_by_desc item_created_at rows), s)"
  using assms isReady_db [OF assms(1)]
  by (auto simp: getAllItems_def ensureInitialized_ready select_items_def)

lemma updateItemQuantity_ready:
  assumes "isReady s" and "items (store s) = Some rows"
  shows "updateItemQuantity i q s =
    (Inr (), s\<lparr>store := (store s)\<lparr>items :=
        Some (map (\<lambda>r. if item_id r = i then r\<lparr>item_quantity := q\<rparr> else r) rows)\<rparr>\<rparr>)"
  using assms isReady_db [OF assms(1)]
  by (auto simp: updateItemQuantity_def ensureInitialized_ready update_quantity_def)

lemma deleteItem_ready:
  assumes "isReady s" and "items (store s) = Some rows"
  shows "deleteItem i s =
    (Inr (), s\<lparr>store := (store s)\<lparr>items := Some (filter (\<lambda>r. item_id r \<noteq> i) rows)\<rparr>\<rparr>)"
  using assms isReady_db [OF assms(1)]
  by (auto simp: deleteItem_def ensureInitialized_ready delete_item_def)

lemma addStockLog_ready:
  assumes "isReady s" and "stock_logs (store s) = Some logs"
  shows "addStockLog l s =
    (Inr (stock_logs_seq (store s) + 1),
     s\<lparr>store := (store s)\<lparr>stock_logs :=
          Some (logs @ [\<lparr>log_id = stock_logs_seq (store s) + 1, log_item_id = log_item_id l,
                         log_type = log_type l, log_quantity = log_quantity l,
                         log_note = log_note l, log_timestamp = log_timestamp l,
                         log_item_name = None\<rparr>]),
        stock_logs_seq := stock_logs_seq (store s) + 1\<rparr>\<rparr>)"
  using assms isReady_db [OF assms(1)]
  by (auto simp: addStockLog_def ensureInitialized_ready insert_stock_log_def Let_def)

lemma getStockLogsByItemId_open:
  assumes "db s = Some h" and "stock_logs (store s) = Some logs"
  shows "getStockLogsByItemId i s =
    (Inr (order_by_desc log_timestamp (filter (\<lambda>l. log_item_id l = i) logs)), s)"
  using assms by (simp add: getStockLogsByItemId_def select_stock_logs_def)

lemma getRecentStockLogs_open:
  assumes "db s = Some h" and "items (store s) = Some rows" and "stock_logs (store s) = Some logs"
  shows "getRecentStockLogs n s =
    (Inr (limit n (order_by_desc log_timestamp (join_items logs rows))), s)"
  using assms by (simp add: getRecentStockLogs_def select_recent_def)

lemma store_items_same:
  "items (store s) = Some rows \<Longrightarrow> s\<lparr>store := (store s)\<lparr>items := Some rows\<rparr>\<rparr> = s"
  by (metis database.surjective database.update_convs(1) service.surjective
      service.update_convs(3))

lemma map_unchanged:
  "\<forall>r\<in>set rows. item_id r \<noteq> i \<Longrightarrow>
     map (\<lambda>r. if item_id r = i then r\<lparr>item_quantity := q\<rparr> else r) rows = rows"
  by (induction rows) auto

lemma filter_unchanged:
  "\<forall>r\<in>set rows. item_id r \<noteq> i \<Longrightarrow> filter (\<lambda>r. item_id r \<noteq> i) rows = rows"
  by (induction rows) auto

lemma shop_eq:
  "shop = \<lparr>db = Some (SQLiteDatabase ''warehouse.db''), isInitialized = True,
           store = \<lparr>items = Some [phone_case\<lparr>item_id := 1\<rparr>], stock_logs = Some [],
                    items_seq = 1, stock_logs_seq = 0\<rparr>,
           can_open = True\<rparr>"
  by (simp add: shop_def addItem_def fresh_def init_defs sql_defs phone_case_def)

lemma shop_ready: "isReady shop"
  by (simp add: shop_eq isReady_def)

lemma shop_items: "items (store shop) = Some [phone_case\<lparr>item_id := 1\<rparr>]"
  by (simp add: shop_eq)

lemma shop_logs: "stock_logs (store shop) = Some []"
  by (simp add: shop_eq)

lemma brimful_eq:
  "brimful = \<lparr>db = Some (SQLiteDatabase ''warehouse.db''), isInitialized = True,
           store = \<lparr>items = Some [phone_case\<lparr>item_id := 1, item_quantity := 9007199254740991\<rparr>],
                    stock_logs = Some [], items_seq = 1, stock_logs_seq = 0\<rparr>,
           can_open = True\<rparr>"
  unfolding brimful_def
  by (simp add: updateItemQuantity_ready [OF shop_ready shop_items]) (simp add: shop_eq)

subsection \<open>Update and delete on an id without a row\<close>

text \<open>
  Claim C10. On a ready service, when no item row has the id \<open>i\<close>,
  \<open>updateItemQuantity i q\<close> and \<open>deleteItem i\<close> both return without an error (in
  particular without \<open>ItemNotFound\<close>) and leave the whole state as it was.
\<close>

theorem absent_id_update_delete_noop:
  assumes "isReady s" and "items (store s) = Some rows"
    and "\<forall>r\<in>set rows. item_id r \<noteq> i"
  shows "updateItemQuantity i q s = (Inr (), s) \<and> deleteItem i s = (Inr (), s)"
  using assms
  by (simp add: updateItemQuantity_ready deleteItem_ready map_unchanged filter_unchanged
      store_items_same)

theorem absent_id_update_delete_noop_witness:
  "isReady shop \<and> items (store shop) = Some [phone_case\<lparr>item_id := 1\<rparr>]
   \<and> item_id (phone_case\<lparr>item_id := 1\<rparr>) \<noteq> 7
   \<and> updateItemQuantity 7 40 shop = (Inr (), shop) \<and> deleteItem 7 shop = (Inr (), shop)"
proof -
  have h3: "\<forall>r\<in>set [phone_case\<lparr>item_id := 1\<rparr>]. item_id r \<noteq> 7" by simp
  from absent_id_update_delete_noop [OF shop_ready shop_items h3, of 40] shop_ready shop_items
  show ?thesis by simp
qed

subsection \<open>The stock movement\<close>

lemma processStockMovement_found:
  assumes "isReady s" and "items (store s) = Some rows" and "stock_logs (store s) = Some logs"
    and "find (\<lambda>r. item_id r = itemId) rows = Some item"
  shows "processStockMovement itemId type q note now s =
    (Inr (),
     s\<lparr>store := (store s)\<lparr>
        items := Some (map (\<lambda>r. if item_id r = itemId
                   then r\<lparr>item_quantity := (if type = In then add_number (item_quantity item) q
                                               else max 0 (sub_number (item_quantity item) q))\<rparr>
                   else r) rows),
        stock_logs := Some (logs @ [\<lparr>log_id = stock_logs_seq (store s) + 1, log_item_id = itemId,
            log_type = type, log_quantity = q, log_note = note, log_timestamp = now,
            log_item_name = None\<rparr>]),
        stock_logs_seq := stock_logs_seq (store s) + 1\<rparr>\<rparr>)"
proof -
  obtain h where h: "db s = Some h" using isReady_db [OF assms(1)] by blast
  define nq where "nq = (if type = In then add_number (item_quantity item) q
                                               else max 0 (sub_number (item_quantity item) q))"
  define s2 where "s2 = s\<lparr>store := (store s)\<lparr>items :=
        Some (map (\<lambda>r. if item_id r = itemId then r\<lparr>item_quantity := nq\<rparr> else r) rows)\<rparr>\<rparr>"
  have u: "updateItemQuantity itemId nq s = (Inr (), s2)"
    unfolding s2_def by (rule updateItemQuantity_ready [OF assms(1,2)])
  have r2: "isReady s2" using assms(1) by (simp add: s2_def isReady_def)
  have l2: "stock_logs (store s2) = Some logs" using assms(3) by (simp add: s2_def)
  have "processStockMovement itemId type q note now s =
    (case addStockLog \<lparr>log_id = 0, log_item_id = itemId, log_type = type, log_quantity = q,
            log_note = note, log_timestamp = now, log_item_name = None\<rparr> s2 of
       (Inl e, s3) \<Rightarrow> (Inl e, s3) | (Inr _, s3) \<Rightarrow> (Inr (), s3))"
    unfolding processStockMovement_def
    by (simp add: h getItemById_ready [OF assms(1,2)] assms(4) Let_def nq_def [symmetric] u)
  also have "\<dots> = (Inr (), s2\<lparr>store := (store s2)\<lparr>stock_logs :=
          Some (logs @ [\<lparr>log_id = stock_logs_seq (store s2) + 1, log_item_id = itemId,
                         log_type = type, log_quantity = q,
                         log_note = note, log_timestamp = now,
                         log_item_name = None\<rparr>]),
        stock_logs_seq := stock_logs_seq (store s2) + 1\<rparr>\<rparr>)"
    by (simp add: addStockLog_ready [OF r2 l2])
  also have "\<dots> = (Inr (),
     s\<lparr>store := (store s)\<lparr>
        items := Some (map (\<lambda>r. if item_id r = itemId
                   then r\<lparr>item_quantity := nq\<rparr>
                   else r) rows),
        stock_logs := Some (logs @ [\<lparr>log_id = stock_logs_seq (store s) + 1, log_item_id = itemId,
            log_type = type, log_quantity = q, log_note = note, log_timestamp = now,
            log_item_name = None\<rparr>]),
        stock_logs_seq := stock_logs_seq (store s) + 1\<rparr>\<rparr>)"
    by (simp add: s2_def)
  finally show ?thesis unfolding nq_def .
qed

lemma processStockMovement_absent:
  assumes "isReady s" and "items (store s) = Some rows"
    and "find (\<lambda>r. item_id r = itemId) rows = None"
  shows "processStockMovement itemId type q note now s = (Inl ItemNotFound, s)"
proof -
  obtain h where h: "db s = Some h" using isReady_db [OF assms(1)] by blast
  show ?thesis
    unfolding processStockMovement_def
    by (simp add: h getItemById_ready [OF assms(1,2)] assms(3))
qed

lemma find_updated:
  "find (\<lambda>r. item_id r = i) rows = Some item \<Longrightarrow>
   find (\<lambda>r. item_id r = i)
     (map (\<lambda>r. if item_id r = i then r\<lparr>item_quantity := q\<rparr> else r) rows)
   = Some (item\<lparr>item_quantity := q\<rparr>)"
  by (induction rows) (auto split: if_splits)

lemma mset_insert_desc: "mset (insert_desc k x ys) = add_mset x (mset ys)"
  by (induction ys) auto

lemma mset_order_by_desc: "mset (order_by_desc k xs) = mset xs"
  by (induction xs) (auto simp: order_by_desc_def mset_insert_desc)

lemma addStockLog_no_table:
  assumes "isReady s" and "stock_logs (store s) = None"
  shows "addStockLog l s = (Inl NoSuchTable, s)"
  using assms isReady_db [OF assms(1)]
  by (auto simp: addStockLog_def ensureInitialized_ready insert_stock_log_def)

lemma processStockMovement_no_ledger:
  assumes "isReady s" and "items (store s) = Some rows" and "stock_logs (store s) = None"
    and "find (\<lambda>r. item_id r = itemId) rows = Some item"
  shows "fst (processStockMovement itemId type q note now s) = Inl NoSuchTable"
proof -
  obtain h where h: "db s = Some h" using isReady_db [OF assms(1)] by blast
  define nq where
    "nq = (if type = In then add_number (item_quantity item) q
           else max 0 (sub_number (item_quantity item) q))"
  define s2 where "s2 = s\<lparr>store := (store s)\<lparr>items :=
        Some (map (\<lambda>r. if item_id r = itemId then r\<lparr>item_quantity := nq\<rparr> else r) rows)\<rparr>\<rparr>"
  have u: "updateItemQuantity itemId nq s = (Inr (), s2)"
    unfolding s2_def by (rule updateItemQuantity_ready [OF assms(1,2)])
  have r2: "isReady s2" using assms(1) by (simp add: s2_def isReady_def)
  have l2: "stock_logs (store s2) = None" using assms(3) by (simp add: s2_def)
  show ?thesis
    unfolding processStockMovement_def
    by (simp add: h getItemById_ready [OF assms(1,2)] assms(4) Let_def nq_def [symmetric] u
        addStockLog_no_table [OF r2 l2])
qed

lemma shop_find:
  "find (\<lambda>r. item_id r = 1) [phone_case\<lparr>item_id := 1\<rparr>] = Some (phone_case\<lparr>item_id := 1\<rparr>)"
  by simp

lemma shop_no_logs: "getStockLogsByItemId 1 shop = (Inr [], shop)"
  by (simp add: getStockLogsByItemId_def shop_eq select_stock_logs_def order_by_desc_def)




text \<open>
  Claim C2. On a ready service, for an existing item, \<open>processStockMovement\<close>
  completes and the ledger gains exactly one row \<open>e\<close>: the table is the old one
  followed by \<open>e\<close>, and \<open>getStockLogsByItemId\<close> returns the entries it returned
  before and \<open>e\<close>. The row \<open>e\<close> records the requested quantity \<open>q\<close> as given, the type,
  the note and the timestamp, while the item's stored quantity is the clamped one
  (where the arithmetic of the code is exact, as in C1). The witness is the scenario of
  the specification: quantity 8, stock-out of 20, stored quantity 0, ledger entry 20
  of type \<open>Out\<close>.
\<close>

theorem movement_appends_one_entry:
  assumes "isReady s" and "items (store s) = Some rows" and "stock_logs (store s) = Some logs"
    and "find (\<lambda>r. item_id r = itemId) rows = Some item"
  shows "\<exists>s' ls ls' e. processStockMovement itemId type q note now s = (Inr (), s')
     \<and> getStockLogsByItemId itemId s = (Inr ls, s)
     \<and> getStockLogsByItemId itemId s' = (Inr ls', s')
     \<and> mset ls' = add_mset e (mset ls)
     \<and> stock_logs (store s') = Some (logs @ [e])
     \<and> log_item_id e = itemId \<and> log_type e = type \<and> log_quantity e = q \<and> log_note e = note
     \<and> log_timestamp e = now
     \<and> ((type = In \<longrightarrow> safe_integer (item_quantity item + q))
          \<and> (type = Out \<longrightarrow> item_quantity item - q \<le> 9007199254740991) \<longrightarrow>
         fst (getItemById itemId s') = Inr (Some (item\<lparr>item_quantity :=
           (if type = In then item_quantity item + q else max 0 (item_quantity item - q))\<rparr>)))"
proof -
  define nq where
    "nq = (if type = In then add_number (item_quantity item) q
           else max 0 (sub_number (item_quantity item) q))"
  define e where "e = \<lparr>log_id = stock_logs_seq (store s) + 1, log_item_id = itemId,
            log_type = type, log_quantity = q, log_note = note, log_timestamp = now,
            log_item_name = None\<rparr>"
  define s' where "s' = snd (processStockMovement itemId type q note now s)"
  obtain h where h: "db s = Some h" using isReady_db [OF assms(1)] by blast
  have run: "processStockMovement itemId type q note now s = (Inr (), s')"
    by (simp add: s'_def processStockMovement_found [OF assms])
  have r': "isReady s'"
    using assms(1) by (simp add: s'_def processStockMovement_found [OF assms] isReady_def)
  have h': "db s' = Some h"
    using h by (simp add: s'_def processStockMovement_found [OF assms])
  have i': "items (store s') =
      Some (map (\<lambda>r. if item_id r = itemId then r\<lparr>item_quantity := nq\<rparr> else r) rows)"
    by (simp add: s'_def processStockMovement_found [OF assms] nq_def)
  have l': "stock_logs (store s') = Some (logs @ [e])"
    by (simp add: s'_def processStockMovement_found [OF assms] e_def)
  have g0: "fst (getItemById itemId s') = Inr (Some (item\<lparr>item_quantity := nq\<rparr>))"
    by (simp add: getItemById_ready [OF r' i'] find_updated [OF assms(4)])
  have g: "fst (getItemById itemId s') = Inr (Some (item\<lparr>item_quantity :=
           (if type = In then item_quantity item + q else max 0 (item_quantity item - q))\<rparr>))"
    if "type = In \<longrightarrow> safe_integer (item_quantity item + q)"
      and "type = Out \<longrightarrow> item_quantity item - q \<le> 9007199254740991"
    using g0 exact_new_quantity [OF that] by (simp add: nq_def)
  have m: "mset (order_by_desc log_timestamp (filter (\<lambda>l. log_item_id l = itemId) (logs @ [e])))
      = add_mset e (mset (order_by_desc log_timestamp (filter (\<lambda>l. log_item_id l = itemId) logs)))"
    by (simp add: mset_order_by_desc e_def)
  have f: "log_item_id e = itemId \<and> log_type e = type \<and> log_quantity e = q \<and> log_note e = note
     \<and> log_timestamp e = now" by (simp add: e_def)
  show ?thesis
    using run getStockLogsByItemId_open [OF h assms(3), of itemId]
      getStockLogsByItemId_open [OF h' l', of itemId] m l' f g
    by blast
qed

theorem movement_appends_one_entry_witness:
  "isReady shop \<and> items (store shop) = Some [phone_case\<lparr>item_id := 1\<rparr>]
   \<and> stock_logs (store shop) = Some []
   \<and> find (\<lambda>r. item_id r = 1) [phone_case\<lparr>item_id := 1\<rparr>] = Some (phone_case\<lparr>item_id := 1\<rparr>)
   \<and> item_quantity (phone_case\<lparr>item_id := 1\<rparr>) = 8
   \<and> getStockLogsByItemId 1 shop = (Inr [], shop)
   \<and> (\<exists>s' ls' e.
         processStockMovement 1 Out 20 ''Customer order'' ''2024-05-02T09:30:00.000Z'' shop = (Inr (), s')
       \<and> getStockLogsByItemId 1 s' = (Inr ls', s')
       \<and> mset ls' = {#e#}
       \<and> log_quantity e = 20 \<and> log_type e = Out \<and> log_note e = ''Customer order''
       \<and> fst (getItemById 1 s') = Inr (Some (phone_case\<lparr>item_id := 1, item_quantity := 0\<rparr>)))"
proof -
  have q: "item_quantity (phone_case\<lparr>item_id := 1\<rparr>) = 8" by (simp add: phone_case_def)
  from movement_appends_one_entry [OF shop_ready shop_items shop_logs shop_find, of Out 20
      "''Customer order''" "''2024-05-02T09:30:00.000Z''"]
  obtain s' ls ls' e where
    a: "processStockMovement 1 Out 20 ''Customer order'' ''2024-05-02T09:30:00.000Z'' shop = (Inr (), s')"
    and b: "getStockLogsByItemId 1 shop = (Inr ls, shop)"
    and c: "getStockLogsByItemId 1 s' = (Inr ls', s')"
    and d: "mset ls' = add_mset e (mset ls)"
    and f: "log_type e = Out" "log_quantity e = 20" "log_note e = ''Customer order''"
    and g: "(Out = In \<longrightarrow> safe_integer (item_quantity (phone_case\<lparr>item_id := 1\<rparr>) + 20))
          \<and> (Out = Out \<longrightarrow> item_quantity (phone_case\<lparr>item_id := 1\<rparr>) - 20 \<le> 9007199254740991)
        \<longrightarrow> fst (getItemById 1 s') = Inr (Some (phone_case\<lparr>item_id := 1, item_quantity :=
           (if Out = In then item_quantity (phone_case\<lparr>item_id := 1\<rparr>) + 20
            else max 0 (item_quantity (phone_case\<lparr>item_id := 1\<rparr>) - 20))\<rparr>))"
    by blast
  have ls: "ls = []" using b by (simp add: shop_no_logs)
  have d': "mset ls' = {#e#}" using d ls by simp
  have g': "fst (getItemById 1 s') = Inr (Some (phone_case\<lparr>item_id := 1, item_quantity := 0\<rparr>))"
    using g by (simp add: q)
  from a c d' f g' have
    "\<exists>s' ls' e.
         processStockMovement 1 Out 20 ''Customer order'' ''2024-05-02T09:30:00.000Z'' shop = (Inr (), s')
       \<and> getStockLogsByItemId 1 s' = (Inr ls', s')
       \<and> mset ls' = {#e#}
       \<and> log_quantity e = 20 \<and> log_type e = Out \<and> log_note e = ''Customer order''
       \<and> fst (getItemById 1 s') = Inr (Some (phone_case\<lparr>item_id := 1, item_quantity := 0\<rparr>))"
    by blast
  with shop_ready shop_items shop_logs shop_find q shop_no_logs show ?thesis by blast
qed

text \<open>
  Claim C6. On a ready service, \<open>processStockMovement\<close> fails with \<open>ItemNotFound\<close>
  exactly when no item row has the id, and when it does so the state, hence the item
  table and the ledger, is the one before the call.
\<close>

theorem not_found_iff_absent:
  assumes "isReady s" and "items (store s) = Some rows"
  shows "(fst (processStockMovement itemId type q note now s) = Inl ItemNotFound
            \<longleftrightarrow> (\<forall>r\<in>set rows. item_id r \<noteq> itemId))
     \<and> (fst (processStockMovement itemId type q note now s) = Inl ItemNotFound
            \<longrightarrow> snd (processStockMovement itemId type q note now s) = s)"
proof (cases "find (\<lambda>r. item_id r = itemId) rows")
  case None
  then have "\<forall>r\<in>set rows. item_id r \<noteq> itemId" by (simp add: find_None_iff)
  then show ?thesis by (simp add: processStockMovement_absent [OF assms None])
next
  case (Some item)
  then have "\<exists>r\<in>set rows. item_id r = itemId"
    using find_None_iff [of "\<lambda>r. item_id r = itemId" rows] by auto
  then have ex: "\<not> (\<forall>r\<in>set rows. item_id r \<noteq> itemId)" by simp
  have "fst (processStockMovement itemId type q note now s) \<noteq> Inl ItemNotFound"
  proof (cases "stock_logs (store s)")
    case None
    show ?thesis by (simp add: processStockMovement_no_ledger [OF assms None Some])
  next
    case (Some logs)
    show ?thesis
      by (simp add: processStockMovement_found [OF assms Some \<open>find _ rows = Some item\<close>])
  qed
  with ex show ?thesis by simp
qed

theorem not_found_iff_absent_witness:
  "isReady shop \<and> items (store shop) = Some [phone_case\<lparr>item_id := 1\<rparr>]
   \<and> processStockMovement 7 Out 2 ''Customer order'' ''2024-05-02T09:30:00.000Z'' shop
       = (Inl ItemNotFound, shop)
   \<and> fst (processStockMovement 1 Out 2 ''Customer order'' ''2024-05-02T09:30:00.000Z'' shop)
       \<noteq> Inl ItemNotFound"
proof -
  note a = not_found_iff_absent [OF shop_ready shop_items, of 7 Out 2 "''Customer order''"
      "''2024-05-02T09:30:00.000Z''"]
  note b = not_found_iff_absent [OF shop_ready shop_items, of 1 Out 2 "''Customer order''"
      "''2024-05-02T09:30:00.000Z''"]
  have a1: "fst (processStockMovement 7 Out 2 ''Customer order'' ''2024-05-02T09:30:00.000Z'' shop)
      = Inl ItemNotFound" using a by simp
  then have a2: "snd (processStockMovement 7 Out 2 ''Customer order'' ''2024-05-02T09:30:00.000Z'' shop)
      = shop" using a by blast
  have a3: "processStockMovement 7 Out 2 ''Customer order'' ''2024-05-02T09:30:00.000Z'' shop
       = (Inl ItemNotFound, shop)" using a1 a2 by (simp add: prod_eq_iff)
  have b1: "fst (processStockMovement 1 Out 2 ''Customer order'' ''2024-05-02T09:30:00.000Z'' shop)
       \<noteq> Inl ItemNotFound" using b by simp
  from a3 b1 shop_ready shop_items show ?thesis by blast
qed

subsection \<open>Deleting an item\<close>

lemma sold_eq:
  "sold = \<lparr>db = Some (SQLiteDatabase ''warehouse.db''), isInitialized = True,
           store = \<lparr>items = Some [phone_case\<lparr>item_id := 1, item_quantity := 0\<rparr>],
                    stock_logs = Some [\<lparr>log_id = 1, log_item_id = 1, log_type = Out,
                       log_quantity = 20, log_note = ''Customer order'',
                       log_timestamp = ''2024-05-02T09:30:00.000Z'', log_item_name = None\<rparr>],
                    items_seq = 1, stock_logs_seq = 1\<rparr>,
           can_open = True\<rparr>"
  unfolding sold_def
  by (simp add: processStockMovement_found [OF shop_ready shop_items shop_logs shop_find])
     (simp add: shop_eq phone_case_def number_defs Let_def)

lemma sold_ready: "isReady sold"
  by (simp add: sold_eq isReady_def)

lemma sold_items: "items (store sold) = Some [phone_case\<lparr>item_id := 1, item_quantity := 0\<rparr>]"
  by (simp add: sold_eq)

lemma sold_logs:
  "stock_logs (store sold) = Some [\<lparr>log_id = 1, log_item_id = 1, log_type = Out,
       log_quantity = 20, log_note = ''Customer order'',
       log_timestamp = ''2024-05-02T09:30:00.000Z'', log_item_name = None\<rparr>]"
  by (simp add: sold_eq)

lemma find_filter_other:
  "j \<noteq> i \<Longrightarrow> find (\<lambda>r. item_id r = j) (filter (\<lambda>r. item_id r \<noteq> i) rows)
     = find (\<lambda>r. item_id r = j) rows"
  by (induction rows) auto

lemma find_filter_same:
  "find (\<lambda>r. item_id r = i) (filter (\<lambda>r. item_id r \<noteq> i) rows) = None"
  by (induction rows) auto

text \<open>
  Claim C8. On a ready service \<open>deleteItem i\<close> completes, removes the rows with id \<open>i\<close>
  from the item table and nothing else: the ledger table is the one before, so
  \<open>getStockLogsByItemId\<close> returns for every id, \<open>i\<close> included, what it returned
  before, and every other item is still found unchanged. The witness deletes an item
  that has a ledger entry.
\<close>

theorem deleteItem_keeps_ledger:
  assumes "isReady s" and "items (store s) = Some rows"
  shows "\<exists>s'. deleteItem i s = (Inr (), s')
     \<and> items (store s') = Some (filter (\<lambda>r. item_id r \<noteq> i) rows)
     \<and> stock_logs (store s') = stock_logs (store s)
     \<and> (\<forall>j. fst (getStockLogsByItemId j s') = fst (getStockLogsByItemId j s))
     \<and> (\<forall>j. j \<noteq> i \<longrightarrow> fst (getItemById j s') = fst (getItemById j s))
     \<and> fst (getItemById i s') = Inr None"
proof -
  define s' where
    "s' = s\<lparr>store := (store s)\<lparr>items := Some (filter (\<lambda>r. item_id r \<noteq> i) rows)\<rparr>\<rparr>"
  have run: "deleteItem i s = (Inr (), s')"
    unfolding s'_def by (rule deleteItem_ready [OF assms])
  have r': "isReady s'" using assms(1) by (simp add: s'_def isReady_def)
  have i': "items (store s') = Some (filter (\<lambda>r. item_id r \<noteq> i) rows)"
    by (simp add: s'_def)
  have l': "stock_logs (store s') = stock_logs (store s)" by (simp add: s'_def)
  have d': "db s' = db s" by (simp add: s'_def)
  have sel: "select_stock_logs j (store s') = select_stock_logs j (store s)" for j
    by (simp add: select_stock_logs_def l')
  have logs: "fst (getStockLogsByItemId j s') = fst (getStockLogsByItemId j s)" for j
    by (simp add: getStockLogsByItemId_def sel d' split: option.splits sum.splits)
  have others: "fst (getItemById j s') = fst (getItemById j s)" if "j \<noteq> i" for j
    by (simp add: getItemById_ready [OF r' i'] getItemById_ready [OF assms]
        find_filter_other [OF that])
  have gone: "fst (getItemById i s') = Inr None"
    by (simp add: getItemById_ready [OF r' i'] find_filter_same)
  from run i' l' logs others gone show ?thesis by blast
qed

theorem deleteItem_keeps_ledger_witness:
  "isReady sold \<and> items (store sold) = Some [phone_case\<lparr>item_id := 1, item_quantity := 0\<rparr>]
   \<and> (\<exists>s'. deleteItem 1 sold = (Inr (), s')
        \<and> items (store s') = Some []
        \<and> fst (getItemById 1 s') = Inr None
        \<and> fst (getStockLogsByItemId 1 s') =
            Inr [\<lparr>log_id = 1, log_item_id = 1, log_type = Out, log_quantity = 20,
                  log_note = ''Customer order'', log_timestamp = ''2024-05-02T09:30:00.000Z'',
                  log_item_name = None\<rparr>])"
proof -
  from deleteItem_keeps_ledger [OF sold_ready sold_items, of 1]
  obtain s' where a: "deleteItem 1 sold = (Inr (), s')"
    and b: "items (store s') =
        Some (filter (\<lambda>r. item_id r \<noteq> 1) [phone_case\<lparr>item_id := 1, item_quantity := 0\<rparr>])"
    and c: "\<forall>j. fst (getStockLogsByItemId j s') = fst (getStockLogsByItemId j sold)"
    and d: "fst (getItemById 1 s') = Inr None"
    by blast
  have b': "items (store s') = Some []" using b by simp
  have "fst (getStockLogsByItemId 1 sold) =
            Inr [\<lparr>log_id = 1, log_item_id = 1, log_type = Out, log_quantity = 20,
                  log_note = ''Customer order'', log_timestamp = ''2024-05-02T09:30:00.000Z'',
                  log_item_name = None\<rparr>]"
    by (simp add: getStockLogsByItemId_def sold_eq select_stock_logs_def order_by_desc_def)
  with c have c': "fst (getStockLogsByItemId 1 s') =
            Inr [\<lparr>log_id = 1, log_item_id = 1, log_type = Out, log_quantity = 20,
                  log_note = ''Customer order'', log_timestamp = ''2024-05-02T09:30:00.000Z'',
                  log_item_name = None\<rparr>]" by simp
  from a b' c' d sold_ready sold_items show ?thesis by blast
qed

subsection \<open>The dashboard\<close>

lemma sum_insert_desc:
  "sum_list (map f (insert_desc k x ys)) = f x + sum_list (map (f :: 'a \<Rightarrow> int) ys)"
  by (induction ys) auto

lemma sum_order_by_desc:
  "sum_list (map f (order_by_desc k xs)) = sum_list (map (f :: 'a \<Rightarrow> int) xs)"
  by (induction xs) (auto simp: order_by_desc_def sum_insert_desc)

lemma length_order_by_desc: "length (order_by_desc k xs) = length xs"
  using mset_order_by_desc [of k xs] by (metis size_mset)

lemma join_no_items: "join_items logs [] = []"
  by (induction logs) (auto simp: join_items_def)

lemma sum_quantity_exact:
  assumes "items d = Some rows"
    and "sum_list (map (\<lambda>r. \<bar>item_quantity r\<bar>) rows) \<le> 9007199254740991"
  shows "sum_quantity d = Inr (sum_list (map item_quantity rows))"
proof -
  have ab: "map abs (map item_quantity rows) = map (\<lambda>r. \<bar>item_quantity r\<bar>) rows" by simp
  have "sum_list (map abs (map item_quantity rows)) \<le> 9007199254740991"
    using assms(2) by (simp only: ab)
  then have "\<bar>0\<bar> + sum_list (map abs (map item_quantity rows)) \<le> 9007199254740991"
    by simp
  then have run: "sum_int64 0 (map item_quantity rows) = Some (0 + sum_list (map item_quantity rows))"
    by (rule sum_int64_small)
  have "\<bar>sum_list (map item_quantity rows)\<bar> \<le> sum_list (map abs (map item_quantity rows))"
    by (rule sum_list_abs)
  then have "\<bar>sum_list (map item_quantity rows)\<bar> \<le> 9007199254740991"
    using assms(2) by (simp only: ab)
  then have "safe_integer (sum_list (map item_quantity rows))"
    unfolding safe_integer_def by linarith
  then have "to_number (sum_list (map item_quantity rows)) = sum_list (map item_quantity rows)"
    by (rule to_number_safe)
  with run show ?thesis by (simp add: sum_quantity_def assms(1))
qed

lemma getDashboardStats_ready:
  assumes "isReady s" and "items (store s) = Some rows" and "stock_logs (store s) = Some logs"
    and "sum_list (map (\<lambda>r. \<bar>item_quantity r\<bar>) rows) \<le> 9007199254740991"
  shows "getDashboardStats s =
    (Inr \<lparr>totalItems = int (length rows), totalQuantity = sum_list (map item_quantity rows),
          recentLogs = limit 5 (order_by_desc log_timestamp (join_items logs rows))\<rparr>, s)"
proof -
  obtain h where h: "db s = Some h" using isReady_db [OF assms(1)] by blast
  show ?thesis
    unfolding getDashboardStats_def
    by (simp add: ensureInitialized_ready [OF assms(1)] h count_items_def
        sum_quantity_exact [OF assms(2,4)] assms(2) getRecentStockLogs_open [OF h assms(2,3)])
qed

lemma opened_eq:
  "opened = \<lparr>db = Some (SQLiteDatabase ''warehouse.db''), isInitialized = True,
           store = \<lparr>items = Some [], stock_logs = Some [], items_seq = 0, stock_logs_seq = 0\<rparr>,
           can_open = True\<rparr>"
  by (simp add: opened_def fresh_def init_defs create_items_def create_stock_logs_def)

text \<open>
  Claim C7, as amended. On a ready service in which the absolute values of the item
  quantities add up to at most \<open>2^53 - 1\<close>, so that the sum and every running total is
  a safe integer, \<open>getDashboardStats\<close> and \<open>getAllItems\<close> both complete;
  \<open>totalQuantity\<close> is the sum of the quantities of the items \<open>getAllItems\<close> returns and
  \<open>totalItems\<close> is their number; when there are no items the result is
  \<open>\<lparr>totalItems = 0, totalQuantity = 0, recentLogs = []\<rparr>\<close>.
\<close>

theorem dashboard_totals:
  assumes "isReady s" and "items (store s) = Some rows" and "stock_logs (store s) = Some logs"
    and "sum_list (map (\<lambda>r. \<bar>item_quantity r\<bar>) rows) \<le> 9007199254740991"
  shows "\<exists>st its. getDashboardStats s = (Inr st, s) \<and> getAllItems s = (Inr its, s)
     \<and> totalQuantity st = sum_list (map item_quantity its)
     \<and> totalItems st = int (length its)
     \<and> (its = [] \<longrightarrow> st = \<lparr>totalItems = 0, totalQuantity = 0, recentLogs = []\<rparr>)"
proof -
  define its where "its = order_by_desc item_created_at rows"
  define st where "st = \<lparr>totalItems = int (length rows),
      totalQuantity = sum_list (map item_quantity rows),
      recentLogs = limit 5 (order_by_desc log_timestamp (join_items logs rows))\<rparr>"
  have a: "getDashboardStats s = (Inr st, s)"
    unfolding st_def by (rule getDashboardStats_ready [OF assms])
  have b: "getAllItems s = (Inr its, s)"
    unfolding its_def by (rule getAllItems_ready [OF assms(1,2)])
  have c: "totalQuantity st = sum_list (map item_quantity its)"
    by (simp add: st_def its_def sum_order_by_desc)
  have d: "totalItems st = int (length its)"
    by (simp add: st_def its_def length_order_by_desc)
  have e: "st = \<lparr>totalItems = 0, totalQuantity = 0, recentLogs = []\<rparr>" if "its = []"
  proof -
    have "length rows = 0" using that length_order_by_desc [of item_created_at rows]
      by (simp add: its_def)
    then have "rows = []" by simp
    then show ?thesis
      by (simp add: st_def join_no_items order_by_desc_def limit_def)
  qed
  from a b c d e show ?thesis by blast
qed

theorem dashboard_totals_witness:
  "isReady opened \<and> items (store opened) = Some [] \<and> stock_logs (store opened) = Some []
   \<and> getAllItems opened = (Inr [], opened)
   \<and> getDashboardStats opened
        = (Inr \<lparr>totalItems = 0, totalQuantity = 0, recentLogs = []\<rparr>, opened)
   \<and> isReady shop
   \<and> sum_list (map (\<lambda>r. \<bar>item_quantity r\<bar>) [phone_case\<lparr>item_id := 1\<rparr>]) \<le> 9007199254740991
   \<and> (\<exists>st. getDashboardStats shop = (Inr st, shop) \<and> totalQuantity st = 8 \<and> totalItems st = 1)"
proof -
  have r: "isReady opened" by (simp add: opened_eq isReady_def)
  have i: "items (store opened) = Some []" by (simp add: opened_eq)
  have l: "stock_logs (store opened) = Some []" by (simp add: opened_eq)
  have b0: "sum_list (map (\<lambda>r. \<bar>item_quantity r\<bar>) []) \<le> 9007199254740991" by simp
  have b1: "sum_list (map (\<lambda>r. \<bar>item_quantity r\<bar>) [phone_case\<lparr>item_id := 1\<rparr>])
      \<le> 9007199254740991"
    by (simp add: phone_case_def)
  have g: "getAllItems opened = (Inr [], opened)"
    by (simp add: getAllItems_ready [OF r i] order_by_desc_def)
  from dashboard_totals [OF r i l b0] g
  have e: "getDashboardStats opened
        = (Inr \<lparr>totalItems = 0, totalQuantity = 0, recentLogs = []\<rparr>, opened)"
    by auto
  have g2: "getAllItems shop = (Inr [phone_case\<lparr>item_id := 1\<rparr>], shop)"
    by (simp add: getAllItems_ready [OF shop_ready shop_items] order_by_desc_def)
  from dashboard_totals [OF shop_ready shop_items shop_logs b1] g2
  have "\<exists>st. getDashboardStats shop = (Inr st, shop)
      \<and> totalQuantity st = sum_list (map item_quantity [phone_case\<lparr>item_id := 1\<rparr>])
      \<and> totalItems st = int (length [phone_case\<lparr>item_id := 1\<rparr>])"
    by auto
  then have s: "\<exists>st. getDashboardStats shop = (Inr st, shop) \<and> totalQuantity st = 8
      \<and> totalItems st = 1"
    by (simp add: phone_case_def)
  from r i l g e shop_ready b1 s show ?thesis by blast
qed

lemma brimful_ready: "isReady brimful"
  by (simp add: brimful_eq isReady_def)

lemma brimful_items:
  "items (store brimful) = Some [phone_case\<lparr>item_id := 1, item_quantity := 9007199254740991\<rparr>]"
  by (simp add: brimful_eq)

lemma two_items_eq:
  "two_items = \<lparr>db = Some (SQLiteDatabase ''warehouse.db''), isInitialized = True,
           store = \<lparr>items = Some [phone_case\<lparr>item_id := 1, item_quantity := 9007199254740991\<rparr>,
                                   phone_case\<lparr>item_id := 2, item_quantity := 2\<rparr>],
                    stock_logs = Some [], items_seq = 2, stock_logs_seq = 0\<rparr>,
           can_open = True\<rparr>"
  by (simp add: two_items_def addItem_def ensureInitialized_def insert_item_def brimful_eq
      phone_case_def Let_def)

text \<open>
  The claim C7 as stated equates \<open>totalQuantity\<close> with the sum in every state. With the
  two items of quantity \<open>2^53 - 1\<close> and 2 the sum is 9007199254740993, which is no
  double, and the dashboard reports the double nearest to it.
\<close>

theorem dashboard_total_rounded_counterexample:
  "fst (getAllItems two_items)
     = Inr [\<lparr>item_id = 1, item_name = ''Phone Case'', item_sku = ''PC-003'',
              item_quantity = 9007199254740991, item_location = ''C1-D1'',
              item_description = ''Protective phone case'',
              item_created_at = ''2024-05-01T10:00:00.000Z''\<rparr>,
            \<lparr>item_id = 2, item_name = ''Phone Case'', item_sku = ''PC-003'',
              item_quantity = 2, item_location = ''C1-D1'',
              item_description = ''Protective phone case'',
              item_created_at = ''2024-05-01T10:00:00.000Z''\<rparr>]
   \<and> sum_list [9007199254740991, 2] = (9007199254740993 :: int)
   \<and> fst (getDashboardStats two_items)
     = Inr \<lparr>totalItems = 2, totalQuantity = 9007199254740992, recentLogs = []\<rparr>"
proof -
  have a: "fst (getAllItems two_items)
     = Inr [\<lparr>item_id = 1, item_name = ''Phone Case'', item_sku = ''PC-003'',
              item_quantity = 9007199254740991, item_location = ''C1-D1'',
              item_description = ''Protective phone case'',
              item_created_at = ''2024-05-01T10:00:00.000Z''\<rparr>,
            \<lparr>item_id = 2, item_name = ''Phone Case'', item_sku = ''PC-003'',
              item_quantity = 2, item_location = ''C1-D1'',
              item_description = ''Protective phone case'',
              item_created_at = ''2024-05-01T10:00:00.000Z''\<rparr>]"
    by (simp add: two_items_eq getAllItems_def ensureInitialized_def select_items_def
        order_by_desc_def phone_case_def)
  have b: "sum_quantity (store two_items) = Inr 9007199254740992"
    by (simp add: two_items_eq sum_quantity_def phone_case_def int64_def number_defs Let_def)
  have c: "fst (getDashboardStats two_items)
     = Inr \<lparr>totalItems = 2, totalQuantity = 9007199254740992, recentLogs = []\<rparr>"
  proof -
    have r: "isReady two_items" by (simp add: two_items_eq isReady_def)
    have d: "db two_items = Some (SQLiteDatabase ''warehouse.db'')" by (simp add: two_items_eq)
    have i: "items (store two_items) =
        Some [phone_case\<lparr>item_id := 1, item_quantity := 9007199254740991\<rparr>,
              phone_case\<lparr>item_id := 2, item_quantity := 2\<rparr>]"
      by (simp add: two_items_eq)
    have l: "stock_logs (store two_items) = Some []" by (simp add: two_items_eq)
    have cnt: "count_items (store two_items) = Inr 2" by (simp add: count_items_def i)
    have recent: "getRecentStockLogs 5 two_items = (Inr [], two_items)"
      using getRecentStockLogs_open [OF d i l, of 5]
      by (simp add: join_items_def order_by_desc_def limit_def)
    show ?thesis
      unfolding getDashboardStats_def
      by (simp add: ensureInitialized_ready [OF r] d cnt b recent)
  qed
  from a c show ?thesis by simp
qed

subsection \<open>The most recent ledger entries\<close>

lemma set_insert_desc: "set (insert_desc k x ys) = insert x (set ys)"
  by (induction ys) auto

lemma sorted_insert_desc:
  "sorted_wrt (\<lambda>a b. k b \<le> k a) ys \<Longrightarrow> sorted_wrt (\<lambda>a b. k b \<le> k a) (insert_desc k x ys)"
proof (induction ys)
  case Nil
  then show ?case by simp
next
  case (Cons y ys)
  show ?case
  proof (cases "k y \<le> k x")
    case True
    have "\<forall>z\<in>set ys. k z \<le> k x" using Cons.prems True by auto
    with Cons.prems True show ?thesis by simp
  next
    case False
    then have "k x \<le> k y" by simp
    with Cons False show ?thesis by (auto simp: set_insert_desc)
  qed
qed

lemma sorted_order_by_desc: "sorted_wrt (\<lambda>a b. k b \<le> k a) (order_by_desc k xs)"
proof (induction xs)
  case Nil
  show ?case by (simp add: order_by_desc_def)
next
  case (Cons x xs)
  then show ?case
    using sorted_insert_desc [of k "order_by_desc k xs" x] by (simp add: order_by_desc_def)
qed

lemma limit_split: "\<exists>rest. limit n xs @ rest = xs"
proof (cases "n < 0")
  case True
  then show ?thesis by (simp add: limit_def)
next
  case False
  then have "limit n xs @ drop (nat n) xs = xs" by (simp add: limit_def)
  then show ?thesis by blast
qed

lemma length_limit:
  "length (limit n xs) = (if n < 0 then length xs else min (nat n) (length xs))"
  by (simp add: limit_def min.commute)

lemma set_limit: "set (limit n xs) \<subseteq> set xs"
  by (auto simp: limit_def dest: in_set_takeD)

lemma in_join_items:
  assumes "r \<in> set (join_items logs rows)"
  shows "\<exists>l\<in>set logs. \<exists>i\<in>set rows.
           log_item_id l = item_id i \<and> r = l\<lparr>log_item_name := Some (item_name i)\<rparr>"
  using assms by (auto simp: join_items_def)

lemma sold_db: "db sold = Some (SQLiteDatabase ''warehouse.db'')"
  by (simp add: sold_eq)

lemma orphaned_eq:
  "orphaned = \<lparr>db = Some (SQLiteDatabase ''warehouse.db''), isInitialized = True,
           store = \<lparr>items = Some [],
                    stock_logs = Some [\<lparr>log_id = 1, log_item_id = 1, log_type = Out,
                       log_quantity = 20, log_note = ''Customer order'',
                       log_timestamp = ''2024-05-02T09:30:00.000Z'', log_item_name = None\<rparr>],
                    items_seq = 1, stock_logs_seq = 1\<rparr>,
           can_open = True\<rparr>"
  unfolding orphaned_def
  by (simp add: deleteItem_ready [OF sold_ready sold_items]) (simp add: sold_eq)

text \<open>
  Claim C5, as amended. With an open handle, \<open>getRecentStockLogs n\<close> returns the
  first \<open>n\<close> (all, for a negative \<open>n\<close>) of the ledger entries whose item exists, in
  descending order of timestamp: the result \<open>rs\<close> extends by some \<open>rest\<close> to a
  descending arrangement of all rows of the join, so no row left out is more recent
  than a row returned; and every row returned is a ledger row annotated with the name
  of the item it references.
\<close>

theorem recent_logs_of_existing_items:
  assumes "db s = Some h" and "items (store s) = Some rows" and "stock_logs (store s) = Some logs"
  shows "\<exists>rs rest. getRecentStockLogs n s = (Inr rs, s)
     \<and> mset (rs @ rest) = mset (join_items logs rows)
     \<and> sorted_wrt (\<lambda>a b. log_timestamp b \<le> log_timestamp a) (rs @ rest)
     \<and> length rs = (if n < 0 then length (join_items logs rows)
                     else min (nat n) (length (join_items logs rows)))
     \<and> (\<forall>r\<in>set rs. \<exists>l\<in>set logs. \<exists>i\<in>set rows.
            log_item_id l = item_id i \<and> r = l\<lparr>log_item_name := Some (item_name i)\<rparr>)"
proof -
  define joined where "joined = join_items logs rows"
  define ordered where "ordered = order_by_desc log_timestamp joined"
  define rs where "rs = limit n ordered"
  obtain rest where rest: "rs @ rest = ordered"
    using limit_split [of n ordered] by (auto simp: rs_def)
  have run: "getRecentStockLogs n s = (Inr rs, s)"
    unfolding rs_def ordered_def joined_def by (rule getRecentStockLogs_open [OF assms])
  have m: "mset (rs @ rest) = mset joined"
    by (simp only: rest ordered_def mset_order_by_desc)
  have so: "sorted_wrt (\<lambda>a b. log_timestamp b \<le> log_timestamp a) (rs @ rest)"
    by (simp only: rest ordered_def sorted_order_by_desc)
  have len: "length rs = (if n < 0 then length joined else min (nat n) (length joined))"
    by (simp add: rs_def length_limit ordered_def length_order_by_desc)
  have "set rs \<subseteq> set joined"
  proof -
    have "set rs \<subseteq> set ordered" unfolding rs_def by (rule set_limit)
    moreover have "set ordered = set joined"
      using mset_order_by_desc [of log_timestamp joined] unfolding ordered_def
      by (rule mset_eq_setD)
    ultimately show ?thesis by simp
  qed
  then have mem: "\<forall>r\<in>set rs. \<exists>l\<in>set logs. \<exists>i\<in>set rows.
            log_item_id l = item_id i \<and> r = l\<lparr>log_item_name := Some (item_name i)\<rparr>"
    using in_join_items [of _ logs rows] unfolding joined_def by blast
  from run m so len mem show ?thesis unfolding joined_def by blast
qed

theorem recent_logs_of_existing_items_witness:
  "db sold = Some (SQLiteDatabase ''warehouse.db'')
   \<and> items (store sold) = Some [phone_case\<lparr>item_id := 1, item_quantity := 0\<rparr>]
   \<and> (\<exists>rs. getRecentStockLogs 5 sold = (Inr rs, sold) \<and> length rs = 1
         \<and> rs = [\<lparr>log_id = 1, log_item_id = 1, log_type = Out, log_quantity = 20,
                  log_note = ''Customer order'', log_timestamp = ''2024-05-02T09:30:00.000Z'',
                  log_item_name = Some ''Phone Case''\<rparr>])"
proof -
  have j: "join_items [\<lparr>log_id = 1, log_item_id = 1, log_type = Out,
       log_quantity = 20, log_note = ''Customer order'',
       log_timestamp = ''2024-05-02T09:30:00.000Z'', log_item_name = None\<rparr>]
       [phone_case\<lparr>item_id := 1, item_quantity := 0\<rparr>]
     = [\<lparr>log_id = 1, log_item_id = 1, log_type = Out, log_quantity = 20,
                  log_note = ''Customer order'', log_timestamp = ''2024-05-02T09:30:00.000Z'',
                  log_item_name = Some ''Phone Case''\<rparr>]"
    by (simp add: join_items_def phone_case_def)
  from recent_logs_of_existing_items [OF sold_db sold_items sold_logs, of 5]
  obtain rs rest where a: "getRecentStockLogs 5 sold = (Inr rs, sold)"
    and b: "mset (rs @ rest) = mset [\<lparr>log_id = 1, log_item_id = 1, log_type = Out, log_quantity = 20,
                  log_note = ''Customer order'', log_timestamp = ''2024-05-02T09:30:00.000Z'',
                  log_item_name = Some ''Phone Case''\<rparr>]"
    and c: "length rs = 1"
    unfolding j by auto
  from b c have "rs = [\<lparr>log_id = 1, log_item_id = 1, log_type = Out, log_quantity = 20,
                  log_note = ''Customer order'', log_timestamp = ''2024-05-02T09:30:00.000Z'',
                  log_item_name = Some ''Phone Case''\<rparr>]"
    by (cases rs) (auto simp: mset_single_iff_right dest: mset_eq_length)
  with a c sold_db sold_items show ?thesis by blast
qed

text \<open>
  The claim C5 as stated speaks of all entries of the ledger, whichever item they
  reference. After the item is deleted its entry is still in the ledger, and
  \<open>getStockLogsByItemId\<close> returns it, but the five most recent entries are none.
\<close>

theorem recent_logs_omit_orphans_counterexample:
  "fst (getStockLogsByItemId 1 orphaned) =
      Inr [\<lparr>log_id = 1, log_item_id = 1, log_type = Out, log_quantity = 20,
            log_note = ''Customer order'', log_timestamp = ''2024-05-02T09:30:00.000Z'',
            log_item_name = None\<rparr>]
   \<and> fst (getRecentStockLogs 5 orphaned) = Inr []"
  by (simp add: orphaned_eq getStockLogsByItemId_def getRecentStockLogs_def select_stock_logs_def
      select_recent_def join_items_def order_by_desc_def limit_def)

subsection \<open>Non-negative item quantities\<close>

lemma ensureInitialized_items:
  "items (store (snd (ensureInitialized s))) = items (store s)
   \<or> items (store (snd (ensureInitialized s))) = Some []"
  by (auto simp: init_defs create_items_def create_stock_logs_def split: option.splits)

lemma ensureInitialized_stock_logs:
  "stock_logs (store (snd (ensureInitialized s))) = stock_logs (store s)
   \<or> stock_logs (store (snd (ensureInitialized s))) = Some []"
  by (auto simp: init_defs create_items_def create_stock_logs_def split: option.splits)

lemma nonneg_ensureInitialized:
  "quantities_nonneg s \<Longrightarrow> quantities_nonneg (snd (ensureInitialized s))"
  using ensureInitialized_items [of s] by (auto simp: quantities_nonneg_def)

lemma positive_ensureInitialized:
  "ledger_positive s \<Longrightarrow> ledger_positive (snd (ensureInitialized s))"
  using ensureInitialized_stock_logs [of s] by (auto simp: ledger_positive_def)

lemma nonneg_addItem:
  assumes "quantities_nonneg s" and "0 \<le> item_quantity item"
  shows "quantities_nonneg (snd (addItem item s))"
  using nonneg_ensureInitialized [OF assms(1)] assms(2)
  by (auto simp: addItem_def insert_item_def quantities_nonneg_def Let_def
      split: prod.splits sum.splits option.splits)

lemma nonneg_updateItemQuantity:
  assumes "quantities_nonneg s" and "0 \<le> q"
  shows "quantities_nonneg (snd (updateItemQuantity i q s))"
  using nonneg_ensureInitialized [OF assms(1)] assms(2)
  by (auto simp: updateItemQuantity_def update_quantity_def quantities_nonneg_def list_all_iff
      split: prod.splits sum.splits option.splits)

lemma nonneg_deleteItem:
  assumes "quantities_nonneg s"
  shows "quantities_nonneg (snd (deleteItem i s))"
  using nonneg_ensureInitialized [OF assms(1)]
  by (auto simp: deleteItem_def delete_item_def quantities_nonneg_def list_all_iff
      split: prod.splits sum.splits option.splits)

lemma nonneg_addStockLog:
  assumes "quantities_nonneg s"
  shows "quantities_nonneg (snd (addStockLog l s))"
  using nonneg_ensureInitialized [OF assms(1)]
  by (auto simp: addStockLog_def insert_stock_log_def quantities_nonneg_def Let_def
      split: prod.splits sum.splits option.splits)

lemma nonneg_getItemById:
  assumes "quantities_nonneg s"
  shows "quantities_nonneg (snd (getItemById i s))"
    and "fst (getItemById i s) = Inr (Some item) \<Longrightarrow> 0 \<le> item_quantity item"
proof -
  show "quantities_nonneg (snd (getItemById i s))"
    using nonneg_ensureInitialized [OF assms(1)]
    by (auto simp: getItemById_def select_item_def split: prod.splits sum.splits option.splits)
  show "0 \<le> item_quantity item" if "fst (getItemById i s) = Inr (Some item)"
    using nonneg_ensureInitialized [OF assms(1)] that
    by (auto simp: getItemById_def select_item_def quantities_nonneg_def list_all_iff
        find_Some_iff split: prod.splits sum.splits option.splits)
qed

lemma nonneg_processStockMovement:
  assumes "quantities_nonneg s" and "type = Out \<or> 0 \<le> q"
  shows "quantities_nonneg (snd (processStockMovement itemId type q note now s))"
proof (cases "db s")
  case None
  then show ?thesis using assms(1) by (simp add: processStockMovement_def)
next
  case (Some h)
  obtain r s1 where g: "getItemById itemId s = (r, s1)" by (cases "getItemById itemId s")
  have n1: "quantities_nonneg s1" using nonneg_getItemById(1) [OF assms(1), of itemId] g by simp
  show ?thesis
  proof (cases r)
    case (Inl e)
    then show ?thesis using n1 by (simp add: processStockMovement_def Some g)
  next
    case (Inr found)
    show ?thesis
    proof (cases found)
      case None
      then show ?thesis using n1 Inr by (simp add: processStockMovement_def Some g)
    next
      case (Some item)
      have iq: "0 \<le> item_quantity item"
        using nonneg_getItemById(2) [OF assms(1), of itemId item] g Inr Some by simp
      define nq where
        "nq = (if type = In then add_number (item_quantity item) q
           else max 0 (sub_number (item_quantity item) q))"
      have "0 \<le> nq"
        using assms(2) iq by (cases type) (auto simp: nq_def add_number_def to_number_nonneg)
      then have n2: "quantities_nonneg (snd (updateItemQuantity itemId nq s1))"
        by (rule nonneg_updateItemQuantity [OF n1])
      obtain r2 s2 where u: "updateItemQuantity itemId nq s1 = (r2, s2)"
        by (cases "updateItemQuantity itemId nq s1")
      have n2': "quantities_nonneg s2" using n2 u by simp
      define entry where "entry = \<lparr>log_id = 0, log_item_id = itemId, log_type = type,
          log_quantity = q, log_note = note, log_timestamp = now, log_item_name = None\<rparr>"
      obtain r3 s3 where a: "addStockLog entry s2 = (r3, s3)" by (cases "addStockLog entry s2")
      have n3: "quantities_nonneg s3" using nonneg_addStockLog [OF n2', of entry] a by simp
      show ?thesis
        using n2' n3
        by (simp add: processStockMovement_def \<open>db s = Some h\<close> g Inr Some Let_def
            nq_def [symmetric] u entry_def [symmetric] a split: sum.splits)
    qed
  qed
qed

lemma shop_nonneg: "quantities_nonneg shop"
  by (simp add: quantities_nonneg_def shop_eq phone_case_def)

text \<open>
  Claim C3, as amended. From any state in which every item quantity is at least zero,
  \<open>deleteItem\<close>, \<open>addStockLog\<close> and \<open>processStockMovement\<close> of type \<open>Out\<close> lead to
  such a state again, whatever their arguments and whether they succeed or fail;
  \<open>addItem\<close>, \<open>updateItemQuantity\<close> and \<open>processStockMovement\<close> of type \<open>In\<close> do so
  when the quantity they are given is at least zero.
\<close>

theorem quantity_invariant_preserved:
  assumes "quantities_nonneg s"
  shows "(0 \<le> item_quantity item \<longrightarrow> quantities_nonneg (snd (addItem item s)))
     \<and> (0 \<le> newQuantity \<longrightarrow> quantities_nonneg (snd (updateItemQuantity i newQuantity s)))
     \<and> quantities_nonneg (snd (deleteItem i s))
     \<and> quantities_nonneg (snd (addStockLog l s))
     \<and> (type = Out \<or> 0 \<le> q \<longrightarrow>
          quantities_nonneg (snd (processStockMovement itemId type q note now s)))"
  using nonneg_addItem [OF assms] nonneg_updateItemQuantity [OF assms] nonneg_deleteItem [OF assms]
    nonneg_addStockLog [OF assms] nonneg_processStockMovement [OF assms]
  by blast

theorem quantity_invariant_preserved_witness:
  "quantities_nonneg shop
   \<and> quantities_nonneg (snd (addItem phone_case shop))
   \<and> quantities_nonneg (snd (updateItemQuantity 1 4 shop))
   \<and> quantities_nonneg (snd (deleteItem 1 shop))
   \<and> quantities_nonneg (snd (processStockMovement 1 Out 20 ''Customer order''
         ''2024-05-02T09:30:00.000Z'' shop))
   \<and> quantities_nonneg (snd (processStockMovement 1 In 5 ''Delivery''
         ''2024-05-02T09:30:00.000Z'' shop))"
proof -
  have q: "0 \<le> item_quantity phone_case" by (simp add: phone_case_def)
  from quantity_invariant_preserved [OF shop_nonneg, of phone_case 4 1
      "\<lparr>log_id = 0, log_item_id = 1, log_type = In, log_quantity = 10,
         log_note = ''Initial stock'', log_timestamp = ''2024-04-30T08:00:00.000Z'',
         log_item_name = None\<rparr>" Out 20 1
      "''Customer order''" "''2024-05-02T09:30:00.000Z''"]
    quantity_invariant_preserved [OF shop_nonneg, of phone_case 4 1
      "\<lparr>log_id = 0, log_item_id = 1, log_type = In, log_quantity = 10,
         log_note = ''Initial stock'', log_timestamp = ''2024-04-30T08:00:00.000Z'',
         log_item_name = None\<rparr>" In 5 1
      "''Delivery''" "''2024-05-02T09:30:00.000Z''"]
    q shop_nonneg
  show ?thesis by simp
qed

text \<open>
  The claim C3 as stated has every operation preserve \<open>quantity \<ge> 0\<close>. The
  overwrite of \<open>updateItemQuantity\<close> is unconditional: from the state with the one
  item of quantity 8 it completes and stores \<open>- 5\<close>.
\<close>

theorem update_negative_counterexample:
  "quantities_nonneg shop
   \<and> fst (updateItemQuantity 1 (- 5) shop) = Inr ()
   \<and> \<not> quantities_nonneg (snd (updateItemQuantity 1 (- 5) shop))
   \<and> fst (getItemById 1 (snd (updateItemQuantity 1 (- 5) shop)))
       = Inr (Some \<lparr>item_id = 1, item_name = ''Phone Case'', item_sku = ''PC-003'',
                  item_quantity = - 5, item_location = ''C1-D1'',
                  item_description = ''Protective phone case'',
                  item_created_at = ''2024-05-01T10:00:00.000Z''\<rparr>)"
  by (simp add: quantities_nonneg_def shop_eq phone_case_def updateItemQuantity_def
      getItemById_def ensureInitialized_def update_quantity_def select_item_def)

subsection \<open>Positive ledger quantities\<close>

lemma positive_addItem:
  assumes "ledger_positive s"
  shows "ledger_positive (snd (addItem item s))"
  using positive_ensureInitialized [OF assms(1)]
  by (auto simp: addItem_def insert_item_def ledger_positive_def Let_def
      split: prod.splits sum.splits option.splits)

lemma positive_updateItemQuantity:
  assumes "ledger_positive s"
  shows "ledger_positive (snd (updateItemQuantity i q s))"
  using positive_ensureInitialized [OF assms(1)]
  by (auto simp: updateItemQuantity_def update_quantity_def ledger_positive_def
      split: prod.splits sum.splits option.splits)

lemma positive_deleteItem:
  assumes "ledger_positive s"
  shows "ledger_positive (snd (deleteItem i s))"
  using positive_ensureInitialized [OF assms(1)]
  by (auto simp: deleteItem_def delete_item_def ledger_positive_def
      split: prod.splits sum.splits option.splits)

lemma positive_addStockLog:
  assumes "ledger_positive s" and "0 < log_quantity l"
  shows "ledger_positive (snd (addStockLog l s))"
  using positive_ensureInitialized [OF assms(1)] assms(2)
  by (auto simp: addStockLog_def insert_stock_log_def ledger_positive_def Let_def
      split: prod.splits sum.splits option.splits)

lemma positive_getItemById:
  assumes "ledger_positive s"
  shows "ledger_positive (snd (getItemById i s))"
  using positive_ensureInitialized [OF assms(1)]
  by (auto simp: getItemById_def select_item_def split: prod.splits sum.splits option.splits)

lemma positive_processStockMovement:
  assumes "ledger_positive s" and "0 < q"
  shows "ledger_positive (snd (processStockMovement itemId type q note now s))"
proof (cases "db s")
  case None
  then show ?thesis using assms(1) by (simp add: processStockMovement_def)
next
  case (Some h)
  obtain r s1 where g: "getItemById itemId s = (r, s1)" by (cases "getItemById itemId s")
  have p1: "ledger_positive s1" using positive_getItemById [OF assms(1), of itemId] g by simp
  show ?thesis
  proof (cases r)
    case (Inl e)
    then show ?thesis using p1 by (simp add: processStockMovement_def Some g)
  next
    case (Inr found)
    show ?thesis
    proof (cases found)
      case None
      then show ?thesis using p1 Inr by (simp add: processStockMovement_def Some g)
    next
      case (Some item)
      define nq where
        "nq = (if type = In then add_number (item_quantity item) q
           else max 0 (sub_number (item_quantity item) q))"
      obtain r2 s2 where u: "updateItemQuantity itemId nq s1 = (r2, s2)"
        by (cases "updateItemQuantity itemId nq s1")
      have p2: "ledger_positive s2" using positive_updateItemQuantity [OF p1, of itemId nq] u by simp
      define entry where "entry = \<lparr>log_id = 0, log_item_id = itemId, log_type = type,
          log_quantity = q, log_note = note, log_timestamp = now, log_item_name = None\<rparr>"
      obtain r3 s3 where a: "addStockLog entry s2 = (r3, s3)" by (cases "addStockLog entry s2")
      have "0 < log_quantity entry" using assms(2) by (simp add: entry_def)
      then have p3: "ledger_positive s3" using positive_addStockLog [OF p2, of entry] a by simp
      show ?thesis
        using p2 p3
        by (simp add: processStockMovement_def \<open>db s = Some h\<close> g Inr Some Let_def
            nq_def [symmetric] u entry_def [symmetric] a split: sum.splits)
    qed
  qed
qed

lemma sold_positive: "ledger_positive sold"
  by (simp add: ledger_positive_def sold_eq)

text \<open>
  Claim C9, as amended. From any state in which every ledger row has a quantity above
  zero, the operations on items lead to such a state again, and so do the two that
  append a ledger row, \<open>addStockLog\<close> and \<open>processStockMovement\<close>, when the quantity
  they are given is above zero.
\<close>

theorem ledger_invariant_preserved:
  assumes "ledger_positive s"
  shows "ledger_positive (snd (addItem item s))
     \<and> ledger_positive (snd (updateItemQuantity i newQuantity s))
     \<and> ledger_positive (snd (deleteItem i s))
     \<and> (0 < log_quantity l \<longrightarrow> ledger_positive (snd (addStockLog l s)))
     \<and> (0 < q \<longrightarrow> ledger_positive (snd (processStockMovement itemId type q note now s)))"
  using positive_addItem [OF assms] positive_updateItemQuantity [OF assms]
    positive_deleteItem [OF assms] positive_addStockLog [OF assms]
    positive_processStockMovement [OF assms]
  by blast

theorem ledger_invariant_preserved_witness:
  "ledger_positive sold
   \<and> ledger_positive (snd (addItem phone_case sold))
   \<and> ledger_positive (snd (updateItemQuantity 1 4 sold))
   \<and> ledger_positive (snd (deleteItem 1 sold))
   \<and> ledger_positive (snd (addStockLog
        \<lparr>log_id = 0, log_item_id = 1, log_type = In, log_quantity = 10,
         log_note = ''Initial stock'', log_timestamp = ''2024-04-30T08:00:00.000Z'',
         log_item_name = None\<rparr> sold))
   \<and> ledger_positive (snd (processStockMovement 1 In 5 ''Delivery''
         ''2024-05-03T09:30:00.000Z'' sold))"
  using ledger_invariant_preserved [OF sold_positive, of phone_case 1 4
      "\<lparr>log_id = 0, log_item_id = 1, log_type = In, log_quantity = 10,
         log_note = ''Initial stock'', log_timestamp = ''2024-04-30T08:00:00.000Z'',
         log_item_name = None\<rparr>" 5 1 In "''Delivery''" "''2024-05-03T09:30:00.000Z''"]
    sold_positive
  by simp

text \<open>
  The claim C9 as stated has every ledger row positive in every reachable state. A
  movement of quantity 0 completes and appends a row of quantity 0.
\<close>

theorem movement_zero_counterexample:
  "ledger_positive shop
   \<and> processStockMovement 1 In 0 ''Recount'' ''2024-05-02T09:30:00.000Z'' shop
      = (Inr (), shop\<lparr>store := (store shop)\<lparr>stock_logs :=
            Some [\<lparr>log_id = 1, log_item_id = 1, log_type = In, log_quantity = 0,
                   log_note = ''Recount'', log_timestamp = ''2024-05-02T09:30:00.000Z'',
                   log_item_name = None\<rparr>],
            stock_logs_seq := 1\<rparr>\<rparr>)
   \<and> \<not> ledger_positive
        (snd (processStockMovement 1 In 0 ''Recount'' ''2024-05-02T09:30:00.000Z'' shop))"
  by (simp add: processStockMovement_found [OF shop_ready shop_items shop_logs shop_find]
      ledger_positive_def)
     (simp add: shop_eq phone_case_def number_defs Let_def)

subsection \<open>Initialization\<close>

text \<open>
  \<open>init\<close> on a ready service changes nothing; on a service that is not ready it
  opens the file, creates the missing tables and leaves the service ready, or fails
  and clears both fields. The operations that start with \<open>ensureInitialized\<close> thus
  initialize a service that is not ready.
\<close>

lemma init_ready_noop: "isReady s \<Longrightarrow> init s = (Inr (), s)"
  by (simp add: init_def isReady_def)

lemma init_opens:
  assumes "\<not> isReady s" and "can_open s"
  shows "\<exists>s'. init s = (Inr (), s') \<and> isReady s' \<and> items (store s') \<noteq> None
    \<and> stock_logs (store s') \<noteq> None"
  using assms
  by (auto simp: init_def isReady_def openDatabaseAsync_def createTables_def create_items_def
      create_stock_logs_def split: option.splits)

lemma init_fails:
  assumes "\<not> isReady s" and "\<not> can_open s"
  shows "init s = (Inl FailedToOpen, s\<lparr>db := None, isInitialized := False\<rparr>)"
  using assms by (auto simp: init_def isReady_def openDatabaseAsync_def)

lemma getItemById_initializes:
  assumes "\<not> isReady s" and "can_open s"
  shows "\<exists>r s'. getItemById i s = (Inr r, s') \<and> isReady s'"
proof -
  obtain s' where a: "init s = (Inr (), s')" and b: "isReady s'"
    and c: "items (store s') \<noteq> None"
    using init_opens [OF assms] by blast
  have e: "ensureInitialized s = (Inr (), s')"
    using assms(1) a by (auto simp: ensureInitialized_def isReady_def)
  obtain rows where rows: "items (store s') = Some rows" using c by blast
  obtain h where h: "db s' = Some h" using isReady_db [OF b] by blast
  have "getItemById i s = (Inr (find (\<lambda>r. item_id r = i) rows), s')"
    by (simp add: getItemById_def e h select_item_def rows)
  with b show ?thesis by blast
qed

lemma restarted_eq:
  "restarted = \<lparr>db = None, isInitialized = False,
           store = \<lparr>items = Some [phone_case\<lparr>item_id := 1\<rparr>], stock_logs = Some [],
                    items_seq = 1, stock_logs_seq = 0\<rparr>,
           can_open = True\<rparr>"
  by (simp add: restarted_def shop_eq)

lemma restarted_reads_item:
  "getItemById 1 restarted = (Inr (Some (phone_case\<lparr>item_id := 1\<rparr>)), shop)"
  by (simp add: restarted_eq shop_eq getItemById_def init_defs sql_defs)

text \<open>
  Claim C4. The claim has every operation initialize the store when it is called
  first. \<open>processStockMovement\<close>, \<open>getStockLogsByItemId\<close> and \<open>getRecentStockLogs\<close> do
  not call \<open>ensureInitialized\<close>: on a service without a handle each of them fails with
  \<open>DatabaseNotInitialized\<close> and leaves the state as it was. The witness is a new
  process on a file that holds item 1 and can be opened: \<open>getItemById 1\<close> initializes the
  service and returns the item, the three operations fail.
\<close>

theorem ledger_operations_without_handle:
  assumes "db s = None"
  shows "processStockMovement itemId type q note now s = (Inl DatabaseNotInitialized, s)
     \<and> getStockLogsByItemId itemId s = (Inl DatabaseNotInitialized, s)
     \<and> getRecentStockLogs n s = (Inl DatabaseNotInitialized, s)"
  using assms
  by (simp add: processStockMovement_def getStockLogsByItemId_def getRecentStockLogs_def)

theorem ledger_operations_without_handle_witness:
  "db restarted = None \<and> can_open restarted
   \<and> getItemById 1 restarted = (Inr (Some (phone_case\<lparr>item_id := 1\<rparr>)), shop)
   \<and> processStockMovement 1 In 5 ''Delivery'' ''2024-05-02T09:30:00.000Z'' restarted
        = (Inl DatabaseNotInitialized, restarted)
   \<and> getStockLogsByItemId 1 restarted = (Inl DatabaseNotInitialized, restarted)
   \<and> getRecentStockLogs 5 restarted = (Inl DatabaseNotInitialized, restarted)"
proof -
  have d: "db restarted = None" by (simp add: restarted_eq)
  have c: "can_open restarted" by (simp add: restarted_eq)
  from ledger_operations_without_handle [OF d, of 1 In 5 "''Delivery''"
      "''2024-05-02T09:30:00.000Z''" 5] d c restarted_reads_item
  show ?thesis by simp
qed

end
